theory Spec2Isabelle
  imports Complex_Main
begin

section \<open>Vectors and numbers\<close>

text \<open>
  JavaScript numbers are idealised as \<^typ>\<open>real\<close>: the layout code only adds, multiplies,
  divides by a non-zero radius, compares and takes \<open>Math.floor\<close>, and the properties below
  are about the structure of the stacking algorithm, not about rounding.
\<close>

text \<open>
  Modelled from the spec: \<open>Vector2\<close>, the two-dimensional vector of the DOT library, which
  SphereBucket.js imports and which is not among the sources. Of its members the bucket
  uses three: \<open>distance\<close>, the Euclidean distance between two points, \<open>equals\<close>, which
  compares both components, and \<open>ZERO\<close>, the vector (0, 0).
\<close>

datatype vector2 = Vector2 (vx: real) (vy: real)

definition ZERO :: vector2 where
  "ZERO = Vector2 0 0"

definition distance :: "vector2 \<Rightarrow> vector2 \<Rightarrow> real" where
  "distance a b = sqrt ((vx a - vx b) * (vx a - vx b) + (vy a - vy b) * (vy a - vy b))"

definition equals :: "vector2 \<Rightarrow> vector2 \<Rightarrow> bool" where
  "equals a b = (vx a = vx b \<and> vy a = vy b)"

text \<open>
  \<open>Util.roundSymmetric\<close>, of the DOT library as well, rounds to the nearest integer, a half
  away from zero: \<open>( value < 0 ? -1 : 1 ) * Math.round( Math.abs( value ) )\<close>. The bucket
  uses it to find the layer of a member, where the argument is a whole number up to
  rounding errors.
\<close>

definition roundSymmetric :: "real \<Rightarrow> int" where
  "roundSymmetric v = (if v < 0 then - 1 else 1) * \<lfloor>\<bar>v\<bar> + 1 / 2\<rfloor>"

section \<open>Spheres, the bucket and the store\<close>

text \<open>
  A sphere is an object with identity: the bucket keeps references to spheres in
  \<open>_particles\<close> and mutates their properties. Spheres therefore live in a store
  (\<open>heap\<close>) addressed by a reference, and \<open>particles\<close> is a list of references, in which the
  same reference may occur more than once.

  The removal listeners created by \<open>addParticle\<close> are closures with identity as well; each
  one gets a fresh number from \<open>nextListener\<close>. \<open>linked\<close> lists the listeners linked to the
  sphere's \<open>userControlledProperty\<close>, \<open>bucketRemovalListener\<close> is the field of that name
  (\<open>None\<close> when the field is absent).
\<close>

type_synonym ref = nat

record particle =
  positionProperty :: vector2
  destinationProperty :: vector2
  userControlledProperty :: bool
  linked :: "nat list"
  bucketRemovalListener :: "nat option"

text \<open>Every assignment the bucket's code makes is logged, in program order.\<close>

datatype event =
    SetDestination ref vector2
  | SetPosition ref vector2
  | SetUserControlled ref bool
  | SetParticles "ref list"
  | Link ref nat
  | Unlink ref nat
  | SetListenerField ref "nat option"

text \<open>
  The fields \<open>position\<close> and \<open>width\<close> (\<open>size.width\<close>) belong to the base type Bucket, which
  is not among the sources; they are only read. \<open>assertEnabled\<close> says whether the global
  \<open>assert\<close> is defined (development builds), as in \<open>assert && assert( ... )\<close>.
\<close>

record world =
  position :: vector2
  width :: real
  sphereRadius :: real
  usableWidthProportion :: real
  verticalParticleOffset :: real
  particles :: "ref list"
  heap :: "ref \<Rightarrow> particle"
  nextListener :: nat
  assertEnabled :: bool
  trace :: "event list"

datatype error = AssertionFailed

definition newParticle :: particle where
  "newParticle = \<lparr> positionProperty = ZERO, destinationProperty = ZERO,
     userControlledProperty = False, linked = [], bucketRemovalListener = None \<rparr>"

text \<open>
  The constructor: \<open>options.verticalParticleOffset || -this._sphereRadius * 0.4\<close> takes the
  default also when the option is 0, which is falsy.
\<close>

definition SphereBucket :: "vector2 \<Rightarrow> real \<Rightarrow> real \<Rightarrow> real \<Rightarrow> real option \<Rightarrow> bool \<Rightarrow> world" where
  "SphereBucket pos w r prop voff dev =
     \<lparr> position = pos, width = w, sphereRadius = r, usableWidthProportion = prop,
       verticalParticleOffset =
         (case voff of None \<Rightarrow> - r * (4 / 10)
          | Some v \<Rightarrow> if v = 0 then - r * (4 / 10) else v),
       particles = [], heap = (\<lambda>_. newParticle), nextListener = 0,
       assertEnabled = dev, trace = [] \<rparr>"

definition destination :: "world \<Rightarrow> ref \<Rightarrow> vector2" where
  "destination w p = destinationProperty (heap w p)"

definition setDestination :: "ref \<Rightarrow> vector2 \<Rightarrow> world \<Rightarrow> world" where
  "setDestination p v w =
     w\<lparr> heap := (heap w)(p := (heap w p)\<lparr> destinationProperty := v \<rparr>),
        trace := trace w @ [SetDestination p v] \<rparr>"

definition setPosition :: "ref \<Rightarrow> vector2 \<Rightarrow> world \<Rightarrow> world" where
  "setPosition p v w =
     w\<lparr> heap := (heap w)(p := (heap w p)\<lparr> positionProperty := v \<rparr>),
        trace := trace w @ [SetPosition p v] \<rparr>"

definition setParticles :: "ref list \<Rightarrow> world \<Rightarrow> world" where
  "setParticles ps w = w\<lparr> particles := ps, trace := trace w @ [SetParticles ps] \<rparr>"

definition lazyLink :: "ref \<Rightarrow> nat \<Rightarrow> world \<Rightarrow> world" where
  "lazyLink p l w =
     w\<lparr> heap := (heap w)(p := (heap w p)\<lparr> linked := linked (heap w p) @ [l] \<rparr>),
        trace := trace w @ [Link p l] \<rparr>"

definition unlink :: "ref \<Rightarrow> nat \<Rightarrow> world \<Rightarrow> world" where
  "unlink p l w =
     w\<lparr> heap := (heap w)(p := (heap w p)\<lparr> linked := removeAll l (linked (heap w p)) \<rparr>),
        trace := trace w @ [Unlink p l] \<rparr>"

definition setListenerField :: "ref \<Rightarrow> nat option \<Rightarrow> world \<Rightarrow> world" where
  "setListenerField p l w =
     w\<lparr> heap := (heap w)(p := (heap w p)\<lparr> bucketRemovalListener := l \<rparr>),
        trace := trace w @ [SetListenerField p l] \<rparr>"

section \<open>Geometry of the stack\<close>

definition getYPositionForLayer :: "world \<Rightarrow> nat \<Rightarrow> real" where
  "getYPositionForLayer w layer =
     vy (position w) + verticalParticleOffset w + real layer * sphereRadius w * 2 * (866 / 1000)"

definition getLayerForYPosition :: "world \<Rightarrow> real \<Rightarrow> int" where
  "getLayerForYPosition w yPosition =
     \<bar>roundSymmetric ((yPosition - (vy (position w) + verticalParticleOffset w))
         / (sphereRadius w * 2 * (866 / 1000)))\<bar>"

definition usableWidth :: "world \<Rightarrow> real" where
  "usableWidth w = width w * usableWidthProportion w - 2 * sphereRadius w"

definition initialOffset :: "world \<Rightarrow> real" where
  "initialOffset w = (width w - usableWidth w) / 2 + sphereRadius w"

definition initialCount :: "world \<Rightarrow> int" where
  "initialCount w = \<lfloor>usableWidth w / (sphereRadius w * 2)\<rfloor>"

text \<open>The coordinate tested by both searches for a slot of a layer.\<close>

definition testLocation :: "world \<Rightarrow> real \<Rightarrow> nat \<Rightarrow> nat \<Rightarrow> vector2" where
  "testLocation w offsetFromBucketEdge layer positionInLayer =
     Vector2 (vx (position w) - width w / 2 + offsetFromBucketEdge
                + real positionInLayer * 2 * sphereRadius w)
             (getYPositionForLayer w layer)"

definition isPositionOpen :: "world \<Rightarrow> vector2 \<Rightarrow> bool" where
  "isPositionOpen w pos = (\<not> list_ex (\<lambda>p. equals (destination w p) pos) (particles w))"

definition containsParticle :: "world \<Rightarrow> ref \<Rightarrow> bool" where
  "containsParticle w p = (p \<in> set (particles w))"

definition countSupportingParticles :: "world \<Rightarrow> vector2 \<Rightarrow> nat" where
  "countSupportingParticles w pos =
     length (filter (\<lambda>p. vy (destination w p) < vy pos
                        \<and> distance (destination w p) pos < sphereRadius w * 3)
               (particles w))"

definition isDangling :: "world \<Rightarrow> ref \<Rightarrow> bool" where
  "isDangling w p =
     (let onBottomRow = (vy (destination w p) = vy (position w) + verticalParticleOffset w)
      in \<not> onBottomRow \<and> countSupportingParticles w (destination w p) < 2)"

section \<open>getFirstOpenLocation\<close>

text \<open>
  The \<open>while ( !found )\<close> loop. Its variables are the arguments; the result is \<open>None\<close> when
  the loop runs forever.
\<close>

partial_function (option) firstOpenLoop ::
  "world \<Rightarrow> real \<Rightarrow> int \<Rightarrow> nat \<Rightarrow> nat \<Rightarrow> vector2 option" where
  "firstOpenLoop w offsetFromBucketEdge numParticlesInLayer row positionInLayer =
     (if isPositionOpen w (testLocation w offsetFromBucketEdge row positionInLayer)
      then Some (testLocation w offsetFromBucketEdge row positionInLayer)
      else if int (positionInLayer + 1) \<ge> numParticlesInLayer
        then (if numParticlesInLayer - 1 = 0
              then firstOpenLoop w (offsetFromBucketEdge + sphereRadius w - sphereRadius w) 1
                     (row + 1) 0
              else firstOpenLoop w (offsetFromBucketEdge + sphereRadius w)
                     (numParticlesInLayer - 1) (row + 1) 0)
        else firstOpenLoop w offsetFromBucketEdge numParticlesInLayer row (positionInLayer + 1))"

definition getFirstOpenLocation :: "world \<Rightarrow> vector2 option" where
  "getFirstOpenLocation w = firstOpenLoop w (initialOffset w) (initialCount w) 0 0"

section \<open>getNearestOpenLocation\<close>

definition highestOccupiedLayer :: "world \<Rightarrow> int" where
  "highestOccupiedLayer w =
     foldl (\<lambda>highest p.
              let layer = getLayerForYPosition w (vy (destination w p))
              in if layer > highest then layer else highest)
       0 (particles w)"

text \<open>The condition under which the inner loop pushes the slot it tests.\<close>

definition admissible :: "world \<Rightarrow> nat \<Rightarrow> vector2 \<Rightarrow> bool" where
  "admissible w layer testPosition =
     (isPositionOpen w testPosition
      \<and> (layer = 0 \<or> countSupportingParticles w testPosition = 2))"

definition openInLayer :: "world \<Rightarrow> real \<Rightarrow> int \<Rightarrow> nat \<Rightarrow> vector2 list" where
  "openInLayer w offsetFromBucketEdge numParticlesInLayer layer =
     filter (admissible w layer)
       (map (testLocation w offsetFromBucketEdge layer) [0 ..< nat numParticlesInLayer])"

text \<open>
  The outer \<open>for\<close> loop; \<open>remaining\<close> counts the iterations still to run, which are
  \<open>highestOccupiedLayer + 2\<close> at the start.
\<close>

fun openLayers :: "world \<Rightarrow> nat \<Rightarrow> nat \<Rightarrow> real \<Rightarrow> int \<Rightarrow> vector2 list" where
  "openLayers w 0 layer offsetFromBucketEdge numParticlesInLayer = []"
| "openLayers w (Suc remaining) layer offsetFromBucketEdge numParticlesInLayer =
     openInLayer w offsetFromBucketEdge numParticlesInLayer layer @
     (if numParticlesInLayer - 1 = 0
      then openLayers w remaining (layer + 1)
             (offsetFromBucketEdge + sphereRadius w - sphereRadius w) 1
      else openLayers w remaining (layer + 1)
             (offsetFromBucketEdge + sphereRadius w) (numParticlesInLayer - 1))"

definition openLocations :: "world \<Rightarrow> vector2 list" where
  "openLocations w =
     openLayers w (nat (highestOccupiedLayer w + 2)) 0 (initialOffset w) (initialCount w)"

definition closestOf :: "vector2 \<Rightarrow> vector2 list \<Rightarrow> vector2" where
  "closestOf pos locs =
     foldl (\<lambda>closestOpenLocation location.
              if distance location pos < distance closestOpenLocation pos
              then location else closestOpenLocation)
       (case locs of [] \<Rightarrow> ZERO | l # _ \<Rightarrow> l) locs"

definition getNearestOpenLocation :: "world \<Rightarrow> vector2 \<Rightarrow> vector2" where
  "getNearestOpenLocation w pos = closestOf pos (openLocations w)"

section \<open>relayoutBucketParticles\<close>

text \<open>
  One run of the \<open>for\<close> loop: \<open>Some\<close> of the new state when a dangling sphere was moved
  (\<open>particleMoved = true; break\<close>), \<open>None\<close> when the loop ran to its end.
\<close>

fun relayoutScan :: "world \<Rightarrow> ref list \<Rightarrow> world option" where
  "relayoutScan w [] = None"
| "relayoutScan w (p # ps) =
     (if isDangling w p
      then Some (setDestination p (getNearestOpenLocation w (destination w p)) w)
      else relayoutScan w ps)"

partial_function (option) relayoutBucketParticles :: "world \<Rightarrow> world option" where
  "relayoutBucketParticles w =
     (case relayoutScan w (particles w) of
        None \<Rightarrow> Some w
      | Some w' \<Rightarrow> relayoutBucketParticles w')"

section \<open>Adding and removing\<close>

definition addParticle :: "ref \<Rightarrow> bool \<Rightarrow> world \<Rightarrow> world" where
  "addParticle p animate w =
     (let w1 = (if \<not> animate then setPosition p (destination w p) w else w);
          w2 = setParticles (particles w1 @ [p]) w1;
          particleRemovedListener = nextListener w2;
          w3 = w2\<lparr> nextListener := Suc (nextListener w2) \<rparr>;
          w4 = lazyLink p particleRemovedListener w3
      in setListenerField p (Some particleRemovedListener) w4)"

definition addParticleFirstOpen :: "ref \<Rightarrow> bool \<Rightarrow> world \<Rightarrow> world option" where
  "addParticleFirstOpen p animate w =
     (case getFirstOpenLocation w of
        None \<Rightarrow> None
      | Some loc \<Rightarrow> Some (addParticle p animate (setDestination p loc w)))"

definition addParticleNearestOpen :: "ref \<Rightarrow> bool \<Rightarrow> world \<Rightarrow> world" where
  "addParticleNearestOpen p animate w =
     addParticle p animate (setDestination p (getNearestOpenLocation w (destination w p)) w)"

text \<open>
  \<open>removeParticle\<close>: \<open>None\<close> when the relayout never returns, \<open>Some (Inl AssertionFailed)\<close>
  when the assertion throws, \<open>Some (Inr w')\<close> otherwise. \<open>_.without\<close> drops every occurrence.
\<close>

definition removeParticle :: "ref \<Rightarrow> bool \<Rightarrow> world \<Rightarrow> (error + world) option" where
  "removeParticle p skipLayout w =
     (if assertEnabled w \<and> \<not> containsParticle w p then Some (Inl AssertionFailed)
      else
        let w1 = setParticles (removeAll p (particles w)) w;
            w2 = (case bucketRemovalListener (heap w1 p) of
                    None \<Rightarrow> w1
                  | Some l \<Rightarrow> setListenerField p None (unlink p l w1))
        in if \<not> skipLayout
           then map_option Inr (relayoutBucketParticles w2)
           else Some (Inr w2))"

section \<open>extractClosestParticle and the removal listener\<close>

text \<open>
  The listener that \<open>addParticle\<close> links to the sphere's \<open>userControlledProperty\<close>: it
  removes the sphere with relayout enabled and then asserts that the field
  \<open>bucketRemovalListener\<close> is gone.
\<close>

definition particleRemovedListener :: "ref \<Rightarrow> world \<Rightarrow> (error + world) option" where
  "particleRemovedListener p w =
     (case removeParticle p False w of
        None \<Rightarrow> None
      | Some (Inl e) \<Rightarrow> Some (Inl e)
      | Some (Inr w') \<Rightarrow>
          if assertEnabled w' \<and> bucketRemovalListener (heap w' p) \<noteq> None
          then Some (Inl AssertionFailed) else Some (Inr w'))"





section \<open>Sequences of operations\<close>

datatype operation =
    AddFirstOpen ref bool
  | AddNearestOpen ref bool
  | Remove ref bool

fun perform :: "operation \<Rightarrow> world \<Rightarrow> (error + world) option" where
  "perform (AddFirstOpen p animate) w = map_option Inr (addParticleFirstOpen p animate w)"
| "perform (AddNearestOpen p animate) w = Some (Inr (addParticleNearestOpen p animate w))"
| "perform (Remove p skipLayout) w = removeParticle p skipLayout w"

fun run :: "operation list \<Rightarrow> world \<Rightarrow> (error + world) option" where
  "run [] w = Some (Inr w)"
| "run (x # xs) w =
     (case perform x w of
        None \<Rightarrow> None
      | Some (Inl e) \<Rightarrow> Some (Inl e)
      | Some (Inr w') \<Rightarrow> run xs w')"

definition danglingMembers :: "world \<Rightarrow> ref list" where
  "danglingMembers w = filter (isDangling w) (particles w)"

section \<open>Example buckets\<close>

text \<open>
  The bucket of the spec's concrete scenario, radius 10 and width 100, placed at the
  origin, with assertions enabled.
\<close>

definition exampleBucket :: world where
  "exampleBucket = SphereBucket (Vector2 0 0) 100 10 1 None True"

text \<open>
  A bucket that is only wide enough for one sphere per layer: \<open>usableWidth\<close> is 20 and
  layer 0 has \<open>floor(20/20) = 1\<close> slot.
\<close>

definition narrowBucket :: world where
  "narrowBucket = SphereBucket (Vector2 0 0) 40 10 1 None True"

text \<open>The same narrow bucket away from the origin of the coordinates.\<close>

definition shiftedBucket :: world where
  "shiftedBucket = SphereBucket (Vector2 100 50) 40 10 1 None True"

text \<open>The bucket of the spec's scenario at any place, in either build.\<close>

definition scenarioBucket :: "real \<Rightarrow> real \<Rightarrow> bool \<Rightarrow> world" where
  "scenarioBucket px py dev = SphereBucket (Vector2 px py) 100 10 1 None dev"

section \<open>Notions used in the statements\<close>

definition destinations :: "world \<Rightarrow> vector2 list" where
  "destinations w = map (destination w) (particles w)"

text \<open>
  \<open>sameButDestinations w w'\<close>: from \<open>w\<close> to \<open>w'\<close> nothing but destinations was assigned.
\<close>

definition sameButDestinations :: "world \<Rightarrow> world \<Rightarrow> bool" where
  "sameButDestinations w w' =
     (particles w' = particles w \<and> nextListener w' = nextListener w
      \<and> assertEnabled w' = assertEnabled w
      \<and> (\<forall>q. linked (heap w' q) = linked (heap w q)
             \<and> bucketRemovalListener (heap w' q) = bucketRemovalListener (heap w q)
             \<and> positionProperty (heap w' q) = positionProperty (heap w q)
             \<and> userControlledProperty (heap w' q) = userControlledProperty (heap w q))
      \<and> (\<exists>ds. trace w' = trace w @ ds \<and> (\<forall>e\<in>set ds. \<exists>q v. e = SetDestination q v)))"

text \<open>
  The values of \<open>offsetFromBucketEdge\<close> and \<open>numParticlesInLayer\<close> with which both searches
  reach a layer: the statements "adjust variables for the next layer" applied \<open>layer\<close> times
  to the initial values.
\<close>

definition nextLayer :: "world \<Rightarrow> real \<times> int \<Rightarrow> real \<times> int" where
  "nextLayer w g =
     (if snd g - 1 = 0 then (fst g + sphereRadius w - sphereRadius w, 1)
      else (fst g + sphereRadius w, snd g - 1))"

definition layerGeometry :: "world \<Rightarrow> nat \<Rightarrow> real \<times> int" where
  "layerGeometry w layer = (nextLayer w ^^ layer) (initialOffset w, initialCount w)"

definition slot :: "world \<Rightarrow> nat \<Rightarrow> nat \<Rightarrow> vector2" where
  "slot w layer positionInLayer =
     testLocation w (fst (layerGeometry w layer)) layer positionInLayer"

text \<open>
  The relayout need not return. In the narrow bucket, after three spheres were added and
  the topmost was removed, the second sphere is dangling in its slot of layer 1, where no
  slot is admissible, so that it is sent to \<open>Vector2.ZERO\<close>; there it is dangling again,
  and counts as the second support of the slot it left, to which it returns. \<open>stuck\<close>
  holds of the states of this cycle.
\<close>


definition stuck :: "world \<Rightarrow> bool" where
  "stuck w = (position w = Vector2 0 0 \<and> width w = 40 \<and> sphereRadius w = 10
     \<and> usableWidthProportion w = 1 \<and> verticalParticleOffset w = - 4
     \<and> particles w = [0, 1] \<and> destination w 0 = Vector2 0 (- 4)
     \<and> (destination w 1 = Vector2 0 0 \<or> destination w 1 = Vector2 0 (333 / 25)))"


section \<open>Rules for running the loops\<close>

text \<open>
  The recursive equations of the two partial functions, split by the test of the loop, so
  that the simplifier can run the loops on a given state.
\<close>

lemma firstOpenLoop_found:
  "isPositionOpen w (testLocation w off row pos) \<Longrightarrow>
   firstOpenLoop w off num row pos = Some (testLocation w off row pos)"
  by (subst firstOpenLoop.simps) simp

lemma firstOpenLoop_next:
  "\<not> isPositionOpen w (testLocation w off row pos) \<Longrightarrow>
   firstOpenLoop w off num row pos =
     (if int (pos + 1) \<ge> num
        then (if num - 1 = 0
              then firstOpenLoop w (off + sphereRadius w - sphereRadius w) 1 (row + 1) 0
              else firstOpenLoop w (off + sphereRadius w) (num - 1) (row + 1) 0)
        else firstOpenLoop w off num row (pos + 1))"
  by (subst firstOpenLoop.simps) simp

lemma relayout_done:
  "relayoutScan w (particles w) = None \<Longrightarrow> relayoutBucketParticles w = Some w"
  by (subst relayoutBucketParticles.simps) simp

lemma relayout_step:
  "relayoutScan w (particles w) = Some w' \<Longrightarrow>
   relayoutBucketParticles w = relayoutBucketParticles w'"
  by (subst relayoutBucketParticles.simps) simp

lemma run_snoc:
  "run (xs @ [x]) w =
     (case run xs w of None \<Rightarrow> None | Some (Inl e) \<Rightarrow> Some (Inl e)
      | Some (Inr w') \<Rightarrow> perform x w')"
  by (induction xs arbitrary: w) (auto split: option.splits sum.splits)

lemma distance_less_iff:
  "0 < c \<Longrightarrow> distance a b < c \<longleftrightarrow>
     (vx a - vx b) * (vx a - vx b) + (vy a - vy b) * (vy a - vy b) < c * c"
proof -
  assume c: "0 < c"
  have "sqrt (c * c) = c" using c by simp
  then have "distance a b < c \<longleftrightarrow> distance a b < sqrt (c * c)" by simp
  also have "\<dots> \<longleftrightarrow> (vx a - vx b) * (vx a - vx b) + (vy a - vy b) * (vy a - vy b) < c * c"
    unfolding distance_def by (rule real_sqrt_less_iff)
  finally show ?thesis .
qed

lemma distance_less_distance_iff:
  "distance a p < distance b p \<longleftrightarrow>
     (vx a - vx p) * (vx a - vx p) + (vy a - vy p) * (vy a - vy p)
       < (vx b - vx p) * (vx b - vx p) + (vy b - vy p) * (vy b - vy p)"
  by (simp add: distance_def)

lemmas world_eval =
  SphereBucket_def getFirstOpenLocation_def initialOffset_def initialCount_def usableWidth_def
  testLocation_def getYPositionForLayer_def isPositionOpen_def equals_def destination_def
  addParticleFirstOpen_def addParticleNearestOpen_def addParticle_def
  setDestination_def setPosition_def setParticles_def lazyLink_def unlink_def
  setListenerField_def newParticle_def ZERO_def firstOpenLoop_found firstOpenLoop_next Let_def
  containsParticle_def removeParticle_def destinations_def

lemmas nearest_eval =
  getNearestOpenLocation_def openLocations_def highestOccupiedLayer_def getLayerForYPosition_def
  roundSymmetric_def openInLayer_def admissible_def countSupportingParticles_def closestOf_def
  distance_less_iff distance_less_distance_iff eval_nat_numeral

lemmas relayout_eval = relayout_done relayout_step isDangling_def danglingMembers_def

section \<open>What the assignments change\<close>

lemma addParticle_particles [simp]: "particles (addParticle p a w) = particles w @ [p]"
  by (simp add: addParticle_def Let_def setParticles_def setPosition_def lazyLink_def
      setListenerField_def)

lemma addParticle_destination [simp]: "destination (addParticle p a w) q = destination w q"
  by (simp add: addParticle_def Let_def setParticles_def setPosition_def lazyLink_def
      setListenerField_def destination_def)

lemma addParticle_sphereRadius [simp]: "sphereRadius (addParticle p a w) = sphereRadius w"
  by (simp add: addParticle_def Let_def setParticles_def setPosition_def lazyLink_def
      setListenerField_def)

lemma addParticle_effect:
  "particles (addParticle p animate w) = particles w @ [p]
   \<and> bucketRemovalListener (heap (addParticle p animate w) p) = Some (nextListener w)
   \<and> linked (heap (addParticle p animate w) p) = linked (heap w p) @ [nextListener w]
   \<and> nextListener (addParticle p animate w) = Suc (nextListener w)"
  by (simp add: addParticle_def Let_def setParticles_def setPosition_def lazyLink_def
      setListenerField_def)

lemma setDestination_destination [simp]:
  "destination (setDestination p v w) q = (if q = p then v else destination w q)"
  by (simp add: setDestination_def destination_def)

lemma setDestination_particles [simp]: "particles (setDestination p v w) = particles w"
  by (simp add: setDestination_def)

lemma setDestination_sphereRadius [simp]: "sphereRadius (setDestination p v w) = sphereRadius w"
  by (simp add: setDestination_def)

lemma setDestination_keeps:
  "bucketRemovalListener (heap (setDestination p v w) q) = bucketRemovalListener (heap w q)
   \<and> linked (heap (setDestination p v w) q) = linked (heap w q)
   \<and> nextListener (setDestination p v w) = nextListener w"
  by (simp add: setDestination_def)

lemma isPositionOpen_member:
  "isPositionOpen w v \<Longrightarrow> p \<in> set (particles w) \<Longrightarrow> destination w p \<noteq> v"
  by (auto simp: isPositionOpen_def list_ex_iff equals_def)

section \<open>getFirstOpenLocation returns\<close>

text \<open>
  With a positive radius the rows rise without bound, so that some row lies above every
  member, and the search reaches it at the latest.
\<close>

lemma rows_above_all:
  assumes r: "0 < sphereRadius w"
  shows "\<exists>K. \<forall>row\<ge>K. \<forall>off pos. isPositionOpen w (testLocation w off row pos)"
proof -
  let ?c = "vy (position w) + verticalParticleOffset w"
  let ?step = "sphereRadius w * 2 * (866 / 1000)"
  have step: "0 < ?step" using r by simp
  obtain M where M: "\<forall>p\<in>set (particles w). vy (destination w p) \<le> M"
  proof (cases "particles w = []")
    case True
    then show ?thesis using that by simp
  next
    case False
    then have "\<forall>p\<in>set (particles w).
                 vy (destination w p) \<le> Max ((\<lambda>p. vy (destination w p)) ` set (particles w))"
      by simp
    then show ?thesis using that by blast
  qed
  obtain K :: nat where K: "(M - ?c) / ?step < real K"
    using reals_Archimedean2 by blast
  have "isPositionOpen w (testLocation w off row pos)" if "K \<le> row" for row off pos
  proof -
    have "real K * ?step \<le> real row * ?step"
      using that step by (simp add: mult_right_mono)
    moreover have "M - ?c < real K * ?step"
      using K step by (simp add: pos_divide_less_eq)
    ultimately have "M < getYPositionForLayer w row"
      by (simp add: getYPositionForLayer_def algebra_simps)
    then show ?thesis
      using M by (fastforce simp: isPositionOpen_def list_ex_iff equals_def testLocation_def)
  qed
  then show ?thesis by blast
qed

lemma firstOpenLoop_returns_aux:
  assumes K: "\<forall>row\<ge>K. \<forall>off pos. isPositionOpen w (testLocation w off row pos)"
  shows "\<exists>v. firstOpenLoop w off num row pos = Some v \<and> isPositionOpen w v"
proof -
  have "wf (less_than <*lex*> less_than :: ((nat \<times> nat) \<times> (nat \<times> nat)) set)"
    by (intro wf_lex_prod wf_less_than)
  then show ?thesis
  proof (induction "(K - row, nat (num - int pos))" arbitrary: off num row pos
      rule: wf_induct_rule)
    case less
    show ?case
    proof (cases "isPositionOpen w (testLocation w off row pos)")
      case True
      then show ?thesis by (simp add: firstOpenLoop_found)
    next
      case False
      then have row: "row < K" using K by (meson not_le)
      show ?thesis
      proof (cases "int (pos + 1) \<ge> num")
        case True
        have d: "((K - (row + 1), n), (K - row, nat (num - int pos)))
                   \<in> less_than <*lex*> less_than" for n
          using row by (simp add: diff_less_mono2)
        show ?thesis
          using less[OF d] False True by (simp add: firstOpenLoop_next)
      next
        case F2: False
        have d: "((K - row, nat (num - int (pos + 1))), (K - row, nat (num - int pos)))
                   \<in> less_than <*lex*> less_than"
          using F2 by simp
        show ?thesis
          using less[OF d] False F2 by (simp add: firstOpenLoop_next)
      qed
    qed
  qed
qed

lemma getFirstOpenLocation_returns:
  assumes "0 < sphereRadius w"
  shows "\<exists>v. getFirstOpenLocation w = Some v \<and> isPositionOpen w v"
  using rows_above_all[OF assms] firstOpenLoop_returns_aux
  unfolding getFirstOpenLocation_def by blast

section \<open>The relayout\<close>


lemma relayoutScan_Some:
  "relayoutScan w ps = Some w' \<Longrightarrow> \<exists>p v. w' = setDestination p v w"
  by (induction ps) (auto split: if_splits)


lemma relayout_fixpoint:
  "danglingMembers w = [] \<Longrightarrow> relayoutBucketParticles w = Some w"
proof -
  assume "danglingMembers w = []"
  then have "\<forall>p\<in>set (particles w). \<not> isDangling w p"
    by (simp add: danglingMembers_def filter_empty_conv)
  moreover have "(\<forall>p\<in>set ps. \<not> isDangling w p) \<Longrightarrow> relayoutScan w ps = None" for ps
    by (induction ps) auto
  ultimately show ?thesis by (simp add: relayout_done)
qed

lemma sameButDestinations_refl: "sameButDestinations w w"
  by (simp add: sameButDestinations_def)

lemma sameButDestinations_set: "sameButDestinations w (setDestination p v w)"
  by (simp add: sameButDestinations_def setDestination_def)

lemma sameButDestinations_trans:
  "sameButDestinations a b \<Longrightarrow> sameButDestinations b c \<Longrightarrow> sameButDestinations a c"
  unfolding sameButDestinations_def
  apply (elim conjE exE)
  apply (intro conjI)
      apply simp
     apply simp
    apply simp
   apply simp
  subgoal for ds ds'
    by (rule exI[of _ "ds @ ds'"]) auto
  done

lemma relayout_sameButDestinations:
  assumes "relayoutBucketParticles w0 = Some w0'"
  shows "sameButDestinations w0 w0'"
proof (rule relayoutBucketParticles.raw_induct
         [where P = "\<lambda>w w'. sameButDestinations w w'", OF _ assms])
  fix f w w'
  assume 1: "\<And>x y. f x = Some y \<Longrightarrow> sameButDestinations x y"
    "(case relayoutScan w (particles w) of None \<Rightarrow> Some w | Some u \<Rightarrow> f u) = Some w'"
  show "sameButDestinations w w'"
  proof (cases "relayoutScan w (particles w)")
    case None
    then show ?thesis using 1(2) by (simp add: sameButDestinations_refl)
  next
    case (Some u)
    then have "sameButDestinations u w'" using 1 by simp
    moreover have "sameButDestinations w u"
      using relayoutScan_Some[OF Some] sameButDestinations_set by blast
    ultimately show ?thesis by (rule sameButDestinations_trans[rotated])
  qed
qed

lemma removeParticle_then_relayout:
  "removeParticle p True w = Some (Inr w2) \<Longrightarrow>
   removeParticle p False w = map_option Inr (relayoutBucketParticles w2)"
  by (auto simp: removeParticle_def Let_def split: if_splits option.splits)

lemma stuck_step:
  assumes "stuck w"
  shows "\<exists>w'. relayoutScan w (particles w) = Some w' \<and> stuck w'"
proof -
  have d0: "\<not> isDangling w 0"
    using assms by (simp add: stuck_def isDangling_def)
  have d1: "isDangling w 1"
    using assms
    by (auto simp: stuck_def isDangling_def countSupportingParticles_def distance_less_iff)
  have n: "getNearestOpenLocation w (destination w 1) = Vector2 0 0
         \<or> getNearestOpenLocation w (destination w 1) = Vector2 0 (333 / 25)"
    using assms
    by (auto simp: stuck_def nearest_eval initialOffset_def initialCount_def usableWidth_def
        testLocation_def getYPositionForLayer_def isPositionOpen_def equals_def ZERO_def)
  define v where "v = getNearestOpenLocation w (destination w 1)"
  have "relayoutScan w (particles w) = Some (setDestination 1 v w)"
    using assms d0 d1 by (simp add: stuck_def v_def)
  moreover have "stuck (setDestination 1 v w)"
    using assms n by (auto simp: stuck_def setDestination_def destination_def v_def)
  ultimately show ?thesis by blast
qed

lemma stuck_diverges:
  assumes "stuck w0"
  shows "relayoutBucketParticles w0 = None"
proof (rule ccontr)
  assume "relayoutBucketParticles w0 \<noteq> None"
  then obtain w0' where r: "relayoutBucketParticles w0 = Some w0'" by blast
  have "\<not> stuck w0"
  proof (rule relayoutBucketParticles.raw_induct
         [where P = "\<lambda>w w'. \<not> stuck w", OF _ r])
    fix f w w'
    assume 1: "\<And>x y. f x = Some y \<Longrightarrow> \<not> stuck x"
      "(case relayoutScan w (particles w) of None \<Rightarrow> Some w | Some u \<Rightarrow> f u) = Some w'"
    show "\<not> stuck w"
    proof
      assume "stuck w"
      then obtain u where "relayoutScan w (particles w) = Some u" "stuck u"
        using stuck_step by blast
      then show False using 1 by auto
    qed
  qed
  then show False using assms by simp
qed

lemma relayout_may_diverge:
  "run [AddFirstOpen 0 False, AddFirstOpen 1 False, AddFirstOpen 2 False, Remove 2 False]
     narrowBucket = None"
proof -
  have "\<exists>w3 w. run [AddFirstOpen 0 False, AddFirstOpen 1 False, AddFirstOpen 2 False]
                  narrowBucket = Some (Inr w3)
          \<and> removeParticle 2 True w3 = Some (Inr w)
          \<and> relayoutScan w (particles w) \<noteq> None
          \<and> stuck (the (relayoutScan w (particles w)))"
    by (simp add: world_eval nearest_eval relayout_eval narrowBucket_def stuck_def)
  then obtain w3 w u where w3: "run [AddFirstOpen 0 False, AddFirstOpen 1 False,
        AddFirstOpen 2 False] narrowBucket = Some (Inr w3)"
    and w: "removeParticle 2 True w3 = Some (Inr w)"
    and u: "relayoutScan w (particles w) = Some u" "stuck u"
    by auto
  have "relayoutBucketParticles w = None"
    using u stuck_diverges by (simp add: relayout_step)
  then have "removeParticle 2 False w3 = None"
    using removeParticle_then_relayout[OF w] by simp
  then show ?thesis
    using w3 run_snoc[of "[AddFirstOpen 0 False, AddFirstOpen 1 False, AddFirstOpen 2 False]"
        "Remove 2 False" narrowBucket]
    by simp
qed

section \<open>No dangling member after a relayout\<close>




text \<open>
  The same in the example bucket, whose pyramid holds 4 + 3 + 2 + 1 spheres: the eleventh
  sphere is put straight above the apex, where the apex is its only supporting member.
\<close>

lemma overflow_above_apex:
  "(case run [AddFirstOpen 0 False, AddFirstOpen 1 False, AddFirstOpen 2 False,
              AddFirstOpen 3 False, AddFirstOpen 4 False, AddFirstOpen 5 False,
              AddFirstOpen 6 False, AddFirstOpen 7 False, AddFirstOpen 8 False,
              AddFirstOpen 9 False, AddFirstOpen 10 False] exampleBucket of
      Some (Inr w) \<Rightarrow>
        destination w 9 = Vector2 0 (1199 / 25)
        \<and> destination w 10 = Vector2 0 (1632 / 25)
        \<and> countSupportingParticles w (destination w 10) = 1
        \<and> danglingMembers w = [10]
    | _ \<Rightarrow> False)"
  by (simp add: world_eval nearest_eval relayout_eval exampleBucket_def)

section \<open>The distance used by getNearestOpenLocation\<close>

text \<open>
  C2. The comment in \<open>getNearestOpenLocation\<close> says that only the X-component is used to
  find the closest open location; the code compares \<open>location.distance( position )\<close>, the
  distance in the plane. Two spheres are in the first two slots of the bottom layer of the
  example bucket. The admissible open slots are the last two of the bottom layer and the
  first of layer 1. For the reference point (-3, 200) the slot (10, -4) is the closest
  one horizontally, at 13 against 17, and the code returns the slot (-20, 13.32).
\<close>

theorem nearest_uses_plane_distance:
  "(case run [AddFirstOpen 0 False, AddFirstOpen 1 False] exampleBucket of
      Some (Inr w) \<Rightarrow>
        destinations w = [Vector2 (- 30) (- 4), Vector2 (- 10) (- 4)]
        \<and> openLocations w = [Vector2 10 (- 4), Vector2 30 (- 4), Vector2 (- 20) (333 / 25)]
        \<and> getNearestOpenLocation w (Vector2 (- 3) 200) = Vector2 (- 20) (333 / 25)
        \<and> \<bar>vx (Vector2 10 (- 4)) - vx (Vector2 (- 3) 200)\<bar>
            < \<bar>vx (Vector2 (- 20) (333 / 25)) - vx (Vector2 (- 3) 200)\<bar>
    | _ \<Rightarrow> False)"
  by (simp add: world_eval nearest_eval exampleBucket_def)

section \<open>Admissible slots of the nearest-open search\<close>

lemma openInLayer_iff:
  "v \<in> set (openInLayer w off num layer) \<longleftrightarrow>
     (\<exists>i. int i < num \<and> v = testLocation w off layer i \<and> admissible w layer v)"
  by (auto simp: openInLayer_def zless_nat_eq_int_zless)

lemma openLayers_Suc:
  "openLayers w (Suc n) layer off num =
     openInLayer w off num layer @
     openLayers w n (Suc layer) (fst (nextLayer w (off, num))) (snd (nextLayer w (off, num)))"
  by (simp add: nextLayer_def)

lemma openLayers_iff:
  "v \<in> set (openLayers w n layer off num) \<longleftrightarrow>
     (\<exists>k<n. v \<in> set (openInLayer w (fst ((nextLayer w ^^ k) (off, num)))
                       (snd ((nextLayer w ^^ k) (off, num))) (layer + k)))"
proof (induction n arbitrary: layer off num)
  case 0
  show ?case by simp
next
  case (Suc n)
  let ?g = "nextLayer w (off, num)"
  let ?F = "\<lambda>k. v \<in> set (openInLayer w (fst ((nextLayer w ^^ k) (off, num)))
                       (snd ((nextLayer w ^^ k) (off, num))) (layer + k))"
  have shift: "(nextLayer w ^^ k) ?g = (nextLayer w ^^ Suc k) (off, num)" for k
    by (simp add: funpow_swap1)
  have "v \<in> set (openLayers w (Suc n) layer off num) \<longleftrightarrow>
          v \<in> set (openInLayer w off num layer)
          \<or> (\<exists>k<n. v \<in> set (openInLayer w (fst ((nextLayer w ^^ k) ?g))
                       (snd ((nextLayer w ^^ k) ?g)) (Suc layer + k)))"
    unfolding openLayers_Suc using Suc.IH[of "Suc layer" "fst ?g" "snd ?g"] by simp
  also have "\<dots> \<longleftrightarrow> ?F 0 \<or> (\<exists>k<n. ?F (Suc k))"
    unfolding shift by simp
  also have "\<dots> \<longleftrightarrow> (\<exists>k<Suc n. ?F k)"
    by (rule Ex_less_Suc2[symmetric])
  finally show ?case .
qed

lemma openLocations_iff:
  "v \<in> set (openLocations w) \<longleftrightarrow>
     (\<exists>layer i. int layer \<le> highestOccupiedLayer w + 1
        \<and> int i < snd (layerGeometry w layer)
        \<and> v = slot w layer i \<and> admissible w layer v)"
proof -
  have k: "k < nat (highestOccupiedLayer w + 2) \<longleftrightarrow> int k \<le> highestOccupiedLayer w + 1"
    for k by linarith
  have "v \<in> set (openLocations w) \<longleftrightarrow>
     (\<exists>layer<nat (highestOccupiedLayer w + 2).
        \<exists>i. int i < snd (layerGeometry w layer)
          \<and> v = slot w layer i \<and> admissible w layer v)"
    unfolding openLocations_def openLayers_iff openInLayer_iff layerGeometry_def slot_def
    by simp
  then show ?thesis unfolding k by blast
qed

lemma slot_layer_inject:
  assumes "0 < sphereRadius w" and "slot w layer i = slot w layer' i'"
  shows "layer = layer'"
proof -
  have "getYPositionForLayer w layer = getYPositionForLayer w layer'"
    using assms(2) by (simp add: slot_def testLocation_def)
  then have "real layer * sphereRadius w = real layer' * sphereRadius w"
    by (simp add: getYPositionForLayer_def)
  then show ?thesis using assms(1) by simp
qed

lemma highestOccupiedLayer_nonneg: "0 \<le> highestOccupiedLayer w"
proof -
  have "a \<le> foldl (\<lambda>highest p.
              let layer = getLayerForYPosition w (vy (destination w p))
              in if layer > highest then layer else highest) a ps" for a ps
  proof (induction ps arbitrary: a)
    case Nil
    show ?case by simp
  next
    case (Cons p ps)
    show ?case
      using Cons.IH[of "getLayerForYPosition w (vy (destination w p))"] Cons.IH[of a]
      by (auto simp: Let_def)
  qed
  then show ?thesis unfolding highestOccupiedLayer_def .
qed

text \<open>
  C3, as the code has it. For a positive radius, a slot of a layer that the search scans
  (layer 0 always is one) is among the open locations if and only if it is empty and either
  lies in layer 0 or has exactly 2 supporting members, counted as
  \<open>countSupportingParticles\<close> counts: the members, each as often as it occurs in the
  collection, whose destination is strictly lower and less than \<open>3 * sphereRadius\<close> away in
  the plane.
\<close>

theorem nearest_open_admissibility:
  assumes "0 < sphereRadius w"
    and "int layer \<le> highestOccupiedLayer w + 1"
    and "int positionInLayer < snd (layerGeometry w layer)"
  shows "(slot w layer positionInLayer \<in> set (openLocations w)
            \<longleftrightarrow> isPositionOpen w (slot w layer positionInLayer)
                \<and> (layer = 0
                    \<or> countSupportingParticles w (slot w layer positionInLayer) = 2))
         \<and> int 0 \<le> highestOccupiedLayer w + 1"
proof -
  have "slot w layer positionInLayer \<in> set (openLocations w)
          \<longleftrightarrow> admissible w layer (slot w layer positionInLayer)"
  proof
    assume "slot w layer positionInLayer \<in> set (openLocations w)"
    then obtain layer' i where "slot w layer positionInLayer = slot w layer' i"
      and "admissible w layer' (slot w layer positionInLayer)"
      unfolding openLocations_iff by blast
    then show "admissible w layer (slot w layer positionInLayer)"
      using slot_layer_inject[OF assms(1)] by blast
  next
    assume "admissible w layer (slot w layer positionInLayer)"
    then show "slot w layer positionInLayer \<in> set (openLocations w)"
      unfolding openLocations_iff using assms(2,3) by blast
  qed
  then show ?thesis
    using highestOccupiedLayer_nonneg[of w] by (simp add: admissible_def)
qed

text \<open>
  Two spheres on the bottom of the example bucket: the first slot of layer 1, above them,
  is an open location, and so is the third slot of layer 0; the second slot of layer 1,
  with one supporting member, is not.
\<close>

theorem nearest_open_admissibility_witness:
  "\<exists>w. run [AddFirstOpen 0 False, AddFirstOpen 1 False] exampleBucket = Some (Inr w)
     \<and> 0 < sphereRadius w
     \<and> int 1 \<le> highestOccupiedLayer w + 1
     \<and> int 0 < snd (layerGeometry w 1) \<and> int 1 < snd (layerGeometry w 1)
     \<and> int 2 < snd (layerGeometry w 0)
     \<and> slot w 1 0 = Vector2 (- 20) (333 / 25)
     \<and> countSupportingParticles w (slot w 1 0) = 2
     \<and> slot w 1 0 \<in> set (openLocations w)
     \<and> slot w 0 2 \<in> set (openLocations w)
     \<and> countSupportingParticles w (slot w 1 1) = 1
     \<and> slot w 1 1 \<notin> set (openLocations w)"
proof -
  have "\<exists>w. run [AddFirstOpen 0 False, AddFirstOpen 1 False] exampleBucket = Some (Inr w)
     \<and> 0 < sphereRadius w
     \<and> int 1 \<le> highestOccupiedLayer w + 1
     \<and> int 0 < snd (layerGeometry w 1) \<and> int 1 < snd (layerGeometry w 1)
     \<and> int 2 < snd (layerGeometry w 0)
     \<and> slot w 1 0 = Vector2 (- 20) (333 / 25)
     \<and> countSupportingParticles w (slot w 1 0) = 2
     \<and> isPositionOpen w (slot w 1 0)
     \<and> isPositionOpen w (slot w 0 2)
     \<and> countSupportingParticles w (slot w 1 1) = 1"
    by (simp add: world_eval nearest_eval exampleBucket_def slot_def layerGeometry_def
        nextLayer_def)
  then obtain w where w: "run [AddFirstOpen 0 False, AddFirstOpen 1 False] exampleBucket
        = Some (Inr w)"
    and r: "0 < sphereRadius w"
    and h: "int 1 \<le> highestOccupiedLayer w + 1"
    and g: "int 0 < snd (layerGeometry w 1)" "int 1 < snd (layerGeometry w 1)"
           "int 2 < snd (layerGeometry w 0)"
    and s: "slot w 1 0 = Vector2 (- 20) (333 / 25)"
    and c: "countSupportingParticles w (slot w 1 0) = 2"
    and opn: "isPositionOpen w (slot w 1 0)" "isPositionOpen w (slot w 0 2)"
    and c1: "countSupportingParticles w (slot w 1 1) = 1"
    by (elim exE conjE)
  have h0: "int 0 \<le> highestOccupiedLayer w + 1" using h by simp
  have a: "slot w 1 0 \<in> set (openLocations w)"
    using nearest_open_admissibility[OF r h g(1)] opn(1) c by simp
  have b: "slot w 0 2 \<in> set (openLocations w)"
    using nearest_open_admissibility[OF r h0 g(3)] opn(2) by simp
  have d: "slot w 1 1 \<notin> set (openLocations w)"
    using nearest_open_admissibility[OF r h g(2)] c1 by simp
  show ?thesis
    using w r h g s c a b c1 d by (intro exI[of _ w]) simp
qed

text \<open>
  C3 as stated fails, "at least 2" being "exactly 2" in the code. Sphere 0 is added twice,
  which moves it to the second slot of the bottom layer and lists it twice, and sphere 1
  takes the first slot. The first slot of layer 1 is empty, both slots below it are
  occupied and it has 3 supporting members, and it is not among the open locations.
\<close>

theorem three_supporters_counterexample:
  "(case run [AddFirstOpen 0 False, AddFirstOpen 0 False, AddFirstOpen 1 False]
           exampleBucket of
      Some (Inr w) \<Rightarrow>
        particles w = [0, 0, 1]
        \<and> destinations w = [Vector2 (- 10) (- 4), Vector2 (- 10) (- 4), Vector2 (- 30) (- 4)]
        \<and> int 1 \<le> highestOccupiedLayer w + 1
        \<and> slot w 1 0 = Vector2 (- 20) (333 / 25)
        \<and> isPositionOpen w (slot w 1 0)
        \<and> \<not> isPositionOpen w (slot w 0 0) \<and> \<not> isPositionOpen w (slot w 0 1)
        \<and> countSupportingParticles w (slot w 1 0) = 3
        \<and> 2 \<le> countSupportingParticles w (slot w 1 0)
        \<and> openLocations w = [Vector2 10 (- 4), Vector2 30 (- 4), Vector2 0 (333 / 25)]
        \<and> slot w 1 0 \<notin> set (openLocations w)
    | _ \<Rightarrow> False)"
  by (simp add: world_eval nearest_eval exampleBucket_def slot_def layerGeometry_def
        nextLayer_def)

section \<open>Two successive calls of addParticleFirstOpen\<close>

text \<open>
  C4. For a positive sphere radius and any state of the bucket and the spheres, two calls of
  \<open>addParticleFirstOpen\<close> in a row both return, each assigns the result of
  \<open>getFirstOpenLocation\<close> as the destination of its sphere, and the two destinations
  differ.
\<close>

theorem addParticleFirstOpen_twice_distinct:
  assumes "0 < sphereRadius w"
  shows "\<exists>w1 w2. addParticleFirstOpen p1 animate1 w = Some w1
           \<and> addParticleFirstOpen p2 animate2 w1 = Some w2
           \<and> getFirstOpenLocation w = Some (destination w1 p1)
           \<and> getFirstOpenLocation w1 = Some (destination w2 p2)
           \<and> destination w1 p1 \<noteq> destination w2 p2"
proof -
  obtain d1 where d1: "getFirstOpenLocation w = Some d1"
    using getFirstOpenLocation_returns[OF assms] by blast
  define w1 where "w1 = addParticle p1 animate1 (setDestination p1 d1 w)"
  have a1: "addParticleFirstOpen p1 animate1 w = Some w1"
    by (simp add: addParticleFirstOpen_def d1 w1_def)
  have r1: "0 < sphereRadius w1" using assms by (simp add: w1_def)
  have dest1: "destination w1 p1 = d1" by (simp add: w1_def)
  have mem1: "p1 \<in> set (particles w1)" by (simp add: w1_def)
  obtain d2 where d2: "getFirstOpenLocation w1 = Some d2" and open2: "isPositionOpen w1 d2"
    using getFirstOpenLocation_returns[OF r1] by blast
  define w2 where "w2 = addParticle p2 animate2 (setDestination p2 d2 w1)"
  have a2: "addParticleFirstOpen p2 animate2 w1 = Some w2"
    by (simp add: addParticleFirstOpen_def d2 w2_def)
  have dest2: "destination w2 p2 = d2" by (simp add: w2_def)
  have "d1 \<noteq> d2" using isPositionOpen_member[OF open2 mem1] dest1 by simp
  then show ?thesis using a1 a2 d1 d2 dest1 dest2 by auto
qed

theorem addParticleFirstOpen_twice_distinct_witness:
  "0 < sphereRadius exampleBucket
   \<and> (\<exists>w1 w2. addParticleFirstOpen 0 False exampleBucket = Some w1
          \<and> addParticleFirstOpen 1 False w1 = Some w2
          \<and> getFirstOpenLocation exampleBucket = Some (destination w1 0)
          \<and> getFirstOpenLocation w1 = Some (destination w2 1)
          \<and> destination w1 0 \<noteq> destination w2 1)"
proof -
  have r: "0 < sphereRadius exampleBucket"
    by (simp add: exampleBucket_def SphereBucket_def)
  show ?thesis
    using r addParticleFirstOpen_twice_distinct[OF r, of 0 False 1 False] by simp
qed

section \<open>The scenario with radius 10 and width 100\<close>

text \<open>
  C5, as the code has it. With radius 10, proportion 1 and width 100, wherever the bucket
  is, layer 0 has \<open>floor(80/20) = 4\<close> slots, 20 apart, the first of them 20 to the right
  of the left edge \<open>position.x - 50\<close>. Four calls of \<open>addParticleFirstOpen\<close> fill them from
  left to right (all calls with the same \<open>animate\<close>). The fifth call puts its sphere in the first slot of layer 1, which is
  midway above the first two slots of layer 0 and has exactly the two spheres in them as
  supporting members.
\<close>

theorem scenario_five_adds:
  "initialCount (scenarioBucket px py dev) = 4
   \<and> map (slot (scenarioBucket px py dev) 0) [0, 1, 2, 3]
       = [Vector2 (px - 50 + 20) (py - 4), Vector2 (px - 50 + 40) (py - 4),
          Vector2 (px - 50 + 60) (py - 4), Vector2 (px - 50 + 80) (py - 4)]
   \<and> (\<exists>w4 w5.
         run [AddFirstOpen 0 animate, AddFirstOpen 1 animate, AddFirstOpen 2 animate,
              AddFirstOpen 3 animate] (scenarioBucket px py dev) = Some (Inr w4)
       \<and> destinations w4 = map (slot (scenarioBucket px py dev) 0) [0, 1, 2, 3]
       \<and> addParticleFirstOpen 4 animate w4 = Some w5
       \<and> destination w5 4 = slot (scenarioBucket px py dev) 1 0
       \<and> destination w5 4 = Vector2 (px - 50 + 30) (py - 4 + 10 * 2 * (866 / 1000))
       \<and> countSupportingParticles w5 (destination w5 4) = 2
       \<and> filter (\<lambda>p. vy (destination w5 p) < vy (destination w5 4)
                      \<and> distance (destination w5 p) (destination w5 4) < sphereRadius w5 * 3)
            (particles w5) = [0, 1])"
  by (cases animate)
     (simp_all add: world_eval nearest_eval scenarioBucket_def slot_def layerGeometry_def
        nextLayer_def)

text \<open>
  C5 as stated fails: neighbouring slots of layer 0 are 20 apart, twice the radius, not 10.
  For the bucket at the origin, whose left edge is at -50, the four spheres are at -30,
  -10, 10 and 30; slots 10 apart from edge + 10 would be at -40, -30, -20 and -10.
\<close>

theorem scenario_spacing_counterexample:
  "(case run [AddFirstOpen 0 False, AddFirstOpen 1 False, AddFirstOpen 2 False,
              AddFirstOpen 3 False] (scenarioBucket 0 0 True) of
      Some (Inr w) \<Rightarrow>
        map vx (destinations w) = [- 30, - 10, 10, 30]
        \<and> vx (destinations w ! 1) - vx (destinations w ! 0) = 20
        \<and> vx (destinations w ! 1) - vx (destinations w ! 0) \<noteq> 10
        \<and> map vx (destinations w) \<noteq> [- 50 + 10, - 50 + 20, - 50 + 30, - 50 + 40]
    | _ \<Rightarrow> False)"
  by (simp add: world_eval nearest_eval scenarioBucket_def)

section \<open>The fallback of getNearestOpenLocation\<close>

text \<open>
  C6, as the code has it. When the search finds no admissible open slot, the result of
  \<open>getNearestOpenLocation\<close> is \<open>Vector2.ZERO\<close>, the vector (0, 0), wherever the bucket is.
\<close>

theorem nearest_fallback_zero:
  "openLocations w = [] \<Longrightarrow> getNearestOpenLocation w pos = Vector2 0 0"
  by (simp add: getNearestOpenLocation_def closestOf_def ZERO_def)

text \<open>The narrow bucket away from the origin is full with one sphere.\<close>

theorem nearest_fallback_zero_witness:
  "\<exists>w. addParticleFirstOpen 0 False shiftedBucket = Some w
     \<and> openLocations w = []
     \<and> getNearestOpenLocation w (Vector2 100 80) = Vector2 0 0"
proof -
  have "\<exists>w. addParticleFirstOpen 0 False shiftedBucket = Some w \<and> openLocations w = []"
    by (simp add: world_eval nearest_eval shiftedBucket_def)
  then show ?thesis using nearest_fallback_zero by blast
qed

text \<open>
  C6 as stated fails where the bucket is not at the origin of the coordinates: the bucket
  at (100, 50) holds one sphere, in its only slot at (100, 46); the search finds nothing
  and returns (0, 0), which is not the position of the bucket.
\<close>

theorem nearest_fallback_counterexample:
  "(case addParticleFirstOpen 0 False shiftedBucket of
      Some w \<Rightarrow>
        position w = Vector2 100 50
        \<and> destinations w = [Vector2 100 46]
        \<and> openLocations w = []
        \<and> getNearestOpenLocation w (Vector2 100 80) = Vector2 0 0
        \<and> getNearestOpenLocation w (Vector2 100 80) \<noteq> position w
    | None \<Rightarrow> False)"
  by (simp add: world_eval nearest_eval shiftedBucket_def)

section \<open>removeParticle\<close>

lemma removeParticle_not_member:
  "assertEnabled w \<Longrightarrow> \<not> containsParticle w p \<Longrightarrow>
   removeParticle p skipLayout w = Some (Inl AssertionFailed)"
  by (simp add: removeParticle_def)

text \<open>The state in which \<open>removeParticle\<close> starts the relayout.\<close>

lemma removeParticle_member:
  assumes "containsParticle w p"
  shows "\<exists>w2. removeParticle p True w = Some (Inr w2)
           \<and> particles w2 = removeAll p (particles w)
           \<and> bucketRemovalListener (heap w2 p) = None
           \<and> (\<forall>l. bucketRemovalListener (heap w p) = Some l \<longrightarrow>
                  l \<notin> set (linked (heap w2 p))
                  \<and> trace w2 = trace w @ [SetParticles (removeAll p (particles w)),
                                           Unlink p l, SetListenerField p None])
           \<and> (\<forall>q. destination w2 q = destination w q)
           \<and> assertEnabled w2 = assertEnabled w"
  using assms
  by (cases "bucketRemovalListener (heap w p)")
     (simp_all add: removeParticle_def Let_def setParticles_def unlink_def
        setListenerField_def destination_def)

text \<open>
  C7. With assertions enabled, \<open>removeParticle\<close> fails on a sphere that is not a member.
  On a member it drops the sphere from \<open>particles\<close>, unlinks the removal listener and
  deletes the field that holds it; with \<open>skipLayout\<close> it returns that state \<open>w2\<close>, otherwise
  it runs the relayout from \<open>w2\<close>, which changes neither the members nor the listeners.
\<close>

theorem removeParticle_contract:
  "(assertEnabled w \<and> \<not> containsParticle w p \<longrightarrow>
      removeParticle p skipLayout w = Some (Inl AssertionFailed))
   \<and> (containsParticle w p \<longrightarrow>
        (\<exists>w2. removeParticle p True w = Some (Inr w2)
           \<and> particles w2 = removeAll p (particles w)
           \<and> \<not> containsParticle w2 p
           \<and> bucketRemovalListener (heap w2 p) = None
           \<and> (\<forall>l. bucketRemovalListener (heap w p) = Some l \<longrightarrow>
                  l \<notin> set (linked (heap w2 p)))
           \<and> destinations w2 = map (destination w) (removeAll p (particles w))
           \<and> removeParticle p False w = map_option Inr (relayoutBucketParticles w2)
           \<and> (\<forall>w3. removeParticle p False w = Some (Inr w3) \<longrightarrow>
                  \<not> containsParticle w3 p
                  \<and> particles w3 = removeAll p (particles w)
                  \<and> bucketRemovalListener (heap w3 p) = None
                  \<and> linked (heap w3 p) = linked (heap w2 p))))"
proof (intro conjI impI)
  assume "assertEnabled w \<and> \<not> containsParticle w p"
  then show "removeParticle p skipLayout w = Some (Inl AssertionFailed)"
    by (simp add: removeParticle_not_member)
next
  assume "containsParticle w p"
  from removeParticle_member[OF this] obtain w2 where
    w2: "removeParticle p True w = Some (Inr w2)"
    and ps: "particles w2 = removeAll p (particles w)"
    and f: "bucketRemovalListener (heap w2 p) = None"
    and l: "\<forall>l. bucketRemovalListener (heap w p) = Some l \<longrightarrow> l \<notin> set (linked (heap w2 p))"
    and d: "\<forall>q. destination w2 q = destination w q"
    by blast
  have r: "removeParticle p False w = map_option Inr (relayoutBucketParticles w2)"
    by (rule removeParticle_then_relayout[OF w2])
  have "\<not> containsParticle w3 p \<and> particles w3 = removeAll p (particles w)
        \<and> bucketRemovalListener (heap w3 p) = None
        \<and> linked (heap w3 p) = linked (heap w2 p)"
    if "removeParticle p False w = Some (Inr w3)" for w3
  proof -
    have "relayoutBucketParticles w2 = Some w3" using that r by auto
    then have "sameButDestinations w2 w3" by (rule relayout_sameButDestinations)
    then show ?thesis using ps f by (simp add: sameButDestinations_def containsParticle_def)
  qed
  then show "\<exists>w2. removeParticle p True w = Some (Inr w2)
           \<and> particles w2 = removeAll p (particles w)
           \<and> \<not> containsParticle w2 p
           \<and> bucketRemovalListener (heap w2 p) = None
           \<and> (\<forall>l. bucketRemovalListener (heap w p) = Some l \<longrightarrow>
                  l \<notin> set (linked (heap w2 p)))
           \<and> destinations w2 = map (destination w) (removeAll p (particles w))
           \<and> removeParticle p False w = map_option Inr (relayoutBucketParticles w2)
           \<and> (\<forall>w3. removeParticle p False w = Some (Inr w3) \<longrightarrow>
                  \<not> containsParticle w3 p
                  \<and> particles w3 = removeAll p (particles w)
                  \<and> bucketRemovalListener (heap w3 p) = None
                  \<and> linked (heap w3 p) = linked (heap w2 p))"
    using w2 ps f l d r by (intro exI[of _ w2]) (simp add: containsParticle_def destinations_def)
qed

text \<open>
  In the empty bucket sphere 0 is not a member, and removing it fails. After two spheres
  were added, removing sphere 0 returns with sphere 1 as the only member.
\<close>

theorem removeParticle_contract_witness:
  "assertEnabled exampleBucket \<and> \<not> containsParticle exampleBucket 0
   \<and> removeParticle 0 False exampleBucket = Some (Inl AssertionFailed)
   \<and> (\<exists>w w3. run [AddFirstOpen 0 False, AddFirstOpen 1 False] exampleBucket = Some (Inr w)
         \<and> containsParticle w 0
         \<and> bucketRemovalListener (heap w 0) = Some 0
         \<and> removeParticle 0 False w = Some (Inr w3)
         \<and> particles w3 = [1]
         \<and> bucketRemovalListener (heap w3 0) = None
         \<and> linked (heap w3 0) = [])"
proof -
  have a: "assertEnabled exampleBucket \<and> \<not> containsParticle exampleBucket 0"
    by (simp add: exampleBucket_def SphereBucket_def containsParticle_def)
  have b: "removeParticle 0 False exampleBucket = Some (Inl AssertionFailed)"
    using a removeParticle_contract[of exampleBucket 0 False] by blast
  have "\<exists>w w3. run [AddFirstOpen 0 False, AddFirstOpen 1 False] exampleBucket = Some (Inr w)
         \<and> containsParticle w 0
         \<and> bucketRemovalListener (heap w 0) = Some 0
         \<and> removeParticle 0 False w = Some (Inr w3)
         \<and> linked (heap w3 0) = [] \<and> particles w = [0, 1]"
    by (simp add: world_eval nearest_eval relayout_eval exampleBucket_def)
  then obtain w w3 where w: "run [AddFirstOpen 0 False, AddFirstOpen 1 False] exampleBucket = Some (Inr w)"
    and m: "containsParticle w 0" and f: "bucketRemovalListener (heap w 0) = Some 0"
    and r: "removeParticle 0 False w = Some (Inr w3)"
    and lk: "linked (heap w3 0) = []" and ps: "particles w = [0, 1]"
    by blast
  from removeParticle_contract[of w 0 False] m r
  have "particles w3 = removeAll 0 (particles w) \<and> bucketRemovalListener (heap w3 0) = None"
    by blast
  then have "particles w3 = [1] \<and> bucketRemovalListener (heap w3 0) = None"
    using ps by simp
  then show ?thesis using a b w m f r lk by blast
qed

section \<open>extractClosestParticle\<close>




section \<open>The order of effects in the removal path\<close>

text \<open>
  C9, as the code has it. When the removal listener of a member \<open>p\<close> runs, with \<open>l\<close> the
  listener held in the field, no assertion fails, and if the listener returns, what it
  assigned is, in this order: the members collection without \<open>p\<close>, the unlinking of \<open>l\<close>,
  the deletion of the field, and then destinations only, by the relayout. The listener is
  detached after the sphere was evicted, and before the relayout. No "held by user" flag
  is assigned on the way, so that no removal listener is notified from inside the path.
\<close>

theorem removal_path_order:
  assumes "containsParticle w p"
    and "bucketRemovalListener (heap w p) = Some l"
  shows "particleRemovedListener p w \<noteq> Some (Inl e)
       \<and> (particleRemovedListener p w = Some (Inr w') \<longrightarrow>
            (\<exists>ds. trace w' = trace w @ [SetParticles (removeAll p (particles w)),
                                         Unlink p l, SetListenerField p None] @ ds
               \<and> (\<forall>d\<in>set ds. \<exists>q v. d = SetDestination q v)))"
proof -
  from removeParticle_member[OF assms(1)] assms(2) obtain w2 where
    w2: "removeParticle p True w = Some (Inr w2)"
    and f: "bucketRemovalListener (heap w2 p) = None"
    and t: "trace w2 = trace w @ [SetParticles (removeAll p (particles w)),
                                  Unlink p l, SetListenerField p None]"
    by blast
  have r: "removeParticle p False w = map_option Inr (relayoutBucketParticles w2)"
    by (rule removeParticle_then_relayout[OF w2])
  show ?thesis
  proof (cases "relayoutBucketParticles w2")
    case None
    then show ?thesis using r by (simp add: particleRemovedListener_def)
  next
    case (Some w3)
    then have s: "sameButDestinations w2 w3" by (rule relayout_sameButDestinations)
    then have f3: "bucketRemovalListener (heap w3 p) = None"
      using f by (simp add: sameButDestinations_def)
    have res: "particleRemovedListener p w = Some (Inr w3)"
      using r Some f3 by (simp add: particleRemovedListener_def)
    obtain ds where "trace w3 = trace w2 @ ds" "\<forall>d\<in>set ds. \<exists>q v. d = SetDestination q v"
      using s by (auto simp: sameButDestinations_def)
    then show ?thesis using res t by auto
  qed
qed

text \<open>
  Five spheres in the example bucket; the listener of the first one runs. The sphere is
  evicted, the listener detached, and the relayout moves the fifth sphere.
\<close>

theorem removal_path_order_witness:
  "\<exists>w w'. run [AddFirstOpen 0 False, AddFirstOpen 1 False, AddFirstOpen 2 False,
               AddFirstOpen 3 False, AddFirstOpen 4 False] exampleBucket = Some (Inr w)
     \<and> containsParticle w 0 \<and> bucketRemovalListener (heap w 0) = Some 0
     \<and> particleRemovedListener 0 w = Some (Inr w')
     \<and> (\<exists>ds. trace w' = trace w @ [SetParticles [1, 2, 3, 4], Unlink 0 0,
                                    SetListenerField 0 None] @ ds
            \<and> list_all (\<lambda>d. case d of SetDestination q v \<Rightarrow> True | _ \<Rightarrow> False) ds)"
proof -
  have "\<exists>w w'. run [AddFirstOpen 0 False, AddFirstOpen 1 False, AddFirstOpen 2 False,
               AddFirstOpen 3 False, AddFirstOpen 4 False] exampleBucket = Some (Inr w)
     \<and> containsParticle w 0 \<and> bucketRemovalListener (heap w 0) = Some 0
     \<and> particles w = [0, 1, 2, 3, 4]
     \<and> particleRemovedListener 0 w = Some (Inr w')"
    by (simp add: world_eval nearest_eval relayout_eval exampleBucket_def
        particleRemovedListener_def)
  then obtain w w' where w: "run [AddFirstOpen 0 False, AddFirstOpen 1 False,
        AddFirstOpen 2 False, AddFirstOpen 3 False, AddFirstOpen 4 False] exampleBucket
          = Some (Inr w)"
    and m: "containsParticle w 0" and f: "bucketRemovalListener (heap w 0) = Some 0"
    and ps: "particles w = [0, 1, 2, 3, 4]"
    and r: "particleRemovedListener 0 w = Some (Inr w')"
    by blast
  from removal_path_order[OF m f, of AssertionFailed w'] r ps
  obtain ds where "trace w' = trace w @ [SetParticles [1, 2, 3, 4], Unlink 0 0,
                                    SetListenerField 0 None] @ ds"
    and "\<forall>d\<in>set ds. \<exists>q v. d = SetDestination q v"
    by auto
  then have "trace w' = trace w @ [SetParticles [1, 2, 3, 4], Unlink 0 0,
                                    SetListenerField 0 None] @ ds
            \<and> list_all (\<lambda>d. case d of SetDestination q v \<Rightarrow> True | _ \<Rightarrow> False) ds"
    by (auto simp: list_all_iff)
  then show ?thesis using w m f r by blast
qed

text \<open>
  C9 as stated fails: the first thing the removal path assigns is the members collection,
  while the listener is still linked; the unlinking comes second. One sphere in the example
  bucket, whose listener runs.
\<close>

theorem detach_not_first_counterexample:
  "(case addParticleFirstOpen 0 False exampleBucket of
      Some w \<Rightarrow>
        linked (heap w 0) = [0]
        \<and> (case particleRemovedListener 0 w of
             Some (Inr w') \<Rightarrow>
               drop (length (trace w)) (trace w')
                 = [SetParticles [], Unlink 0 0, SetListenerField 0 None]
           | _ \<Rightarrow> False)
    | None \<Rightarrow> False)"
  by (simp add: world_eval nearest_eval relayout_eval exampleBucket_def
        particleRemovedListener_def)

section \<open>Adding a sphere that is already a member\<close>

text \<open>
  C10. Neither add operation looks whether the sphere is a member already. For a member
  \<open>p\<close> whose field \<open>bucketRemovalListener\<close> holds a listener \<open>l\<close> created earlier, either
  operation appends \<open>p\<close> to \<open>particles\<close> once more, so that it occurs there at least twice,
  and stores a new listener in the field in place of \<open>l\<close>; \<open>addParticleFirstOpen\<close> returns
  when the radius is positive.
\<close>

theorem add_member_again:
  assumes "containsParticle w p"
    and "bucketRemovalListener (heap w p) = Some l"
    and "l < nextListener w"
    and "w' = addParticleNearestOpen p animate w
         \<or> addParticleFirstOpen p animate w = Some w'"
  shows "particles w' = particles w @ [p]
       \<and> count_list (particles w') p = count_list (particles w) p + 1
       \<and> 2 \<le> count_list (particles w') p
       \<and> bucketRemovalListener (heap w' p) = Some (nextListener w)
       \<and> bucketRemovalListener (heap w' p) \<noteq> Some l
       \<and> linked (heap w' p) = linked (heap w p) @ [nextListener w]
       \<and> (0 < sphereRadius w \<longrightarrow> addParticleFirstOpen p animate w \<noteq> None)"
proof -
  obtain v where w': "w' = addParticle p animate (setDestination p v w)"
    using assms(4)
    by (auto simp: addParticleNearestOpen_def addParticleFirstOpen_def split: option.splits)
  have c: "0 < count_list (particles w) p"
    using assms(1) count_list_0_iff[of "particles w" p] by (auto simp: containsParticle_def)
  have r: "0 < sphereRadius w \<longrightarrow> addParticleFirstOpen p animate w \<noteq> None"
    using getFirstOpenLocation_returns[of w] by (auto simp: addParticleFirstOpen_def)
  show ?thesis
    unfolding w' using assms(2,3) c r
    by (simp add: addParticle_effect setDestination_keeps)
qed

text \<open>Sphere 0 is added to the empty example bucket, and then added again, either way.\<close>

theorem add_member_again_witness:
  "\<exists>w w1 w2. addParticleFirstOpen 0 False exampleBucket = Some w
     \<and> containsParticle w 0 \<and> bucketRemovalListener (heap w 0) = Some 0
     \<and> 0 < nextListener w
     \<and> w1 = addParticleNearestOpen 0 False w
     \<and> particles w1 = [0, 0] \<and> bucketRemovalListener (heap w1 0) = Some 1
     \<and> linked (heap w1 0) = [0, 1]
     \<and> addParticleFirstOpen 0 False w = Some w2
     \<and> particles w2 = [0, 0] \<and> bucketRemovalListener (heap w2 0) = Some 1
     \<and> linked (heap w2 0) = [0, 1]"
proof -
  have "\<exists>w w2. addParticleFirstOpen 0 False exampleBucket = Some w
     \<and> containsParticle w 0 \<and> bucketRemovalListener (heap w 0) = Some 0
     \<and> 0 < nextListener w \<and> particles w = [0] \<and> nextListener w = 1
     \<and> linked (heap w 0) = [0]
     \<and> addParticleFirstOpen 0 False w = Some w2"
    by (simp add: world_eval exampleBucket_def)
  then obtain w w2 where w: "addParticleFirstOpen 0 False exampleBucket = Some w"
    and m: "containsParticle w 0" and f: "bucketRemovalListener (heap w 0) = Some 0"
    and n: "0 < nextListener w" and ps: "particles w = [0]" and nl: "nextListener w = 1"
    and lk: "linked (heap w 0) = [0]"
    and w2: "addParticleFirstOpen 0 False w = Some w2"
    by blast
  have a: "particles (addParticleNearestOpen 0 False w) = [0, 0]
       \<and> bucketRemovalListener (heap (addParticleNearestOpen 0 False w) 0) = Some 1
       \<and> linked (heap (addParticleNearestOpen 0 False w) 0) = [0, 1]"
    using add_member_again[OF m f n, of "addParticleNearestOpen 0 False w" False] ps nl lk
    by simp
  have b: "particles w2 = [0, 0] \<and> bucketRemovalListener (heap w2 0) = Some 1
       \<and> linked (heap w2 0) = [0, 1]"
    using add_member_again[OF m f n, of w2 False] w2 ps nl lk
    by simp
  show ?thesis using w m f n a b w2 by blast
qed

end
